theory Spec2Isabelle
  imports Complex_Main "HOL-Library.Sublist" "HOL-Library.Word"
begin

section \<open>Python strings and exceptions\<close>

text \<open>
  A Python \<open>str\<close> is a sequence of Unicode code points, and \<open>len\<close>, slicing and
  \<open>strip\<close> count code points. A string is therefore a list of code points (natural
  numbers), not a list of bytes. \<open>ascii\<close> embeds an ASCII literal.
\<close>

type_synonym pychar = nat
type_synonym pystr = "pychar list"

definition ascii :: "string \<Rightarrow> pystr" where
  "ascii s = map of_char s"

text \<open>
  The characters \<open>str.strip()\<close>, \<open>str.rstrip()\<close> and the regular expression class
  \<open>\s\<close> (on \<open>str\<close> patterns) treat as whitespace: U+0009..U+000D, U+001C..U+0020,
  U+0085, U+00A0, U+1680, U+2000..U+200A, U+2028, U+2029, U+202F, U+205F, U+3000.
\<close>

definition isspace :: "pychar \<Rightarrow> bool" where
  "isspace c \<longleftrightarrow>
     (9 \<le> c \<and> c \<le> 13) \<or> (28 \<le> c \<and> c \<le> 32) \<or> c = 133 \<or> c = 160 \<or> c = 5760 \<or>
     (8192 \<le> c \<and> c \<le> 8202) \<or> c = 8232 \<or> c = 8233 \<or> c = 8239 \<or> c = 8287 \<or> c = 12288"

definition lstrip :: "pystr \<Rightarrow> pystr" where
  "lstrip s = dropWhile isspace s"

definition rstrip :: "pystr \<Rightarrow> pystr" where
  "rstrip s = rev (dropWhile isspace (rev s))"

definition strip :: "pystr \<Rightarrow> pystr" where
  "strip s = rstrip (lstrip s)"

text \<open>\<open>s.strip(chars)\<close>: removes leading and trailing characters that occur in \<open>chars\<close>.\<close>

definition strip_chars :: "pystr \<Rightarrow> pystr \<Rightarrow> pystr" where
  "strip_chars chars s =
     rev (dropWhile (\<lambda>c. c \<in> set chars) (rev (dropWhile (\<lambda>c. c \<in> set chars) s)))"

text \<open>\<open>x or ""\<close> for an optional string: \<open>None\<close> and the empty string both give \<open>""\<close>.\<close>

definition or_empty :: "pystr option \<Rightarrow> pystr" where
  "or_empty x = (case x of None \<Rightarrow> [] | Some s \<Rightarrow> s)"

text \<open>
  Exceptions that are instances of \<open>Exception\<close>: FastAPI's \<open>HTTPException\<close> with its
  status code and detail, and any other exception (\<open>pyexc\<close>: its class name and its
  message). Library calls raise the second kind only. Signals that are not instances of
  \<open>Exception\<close> (task cancellation, interpreter exit) are not failures of an operation and
  are not modelled.
\<close>

type_synonym pyexc = "string \<times> pystr"

datatype exn = HTTPException nat pystr | PyException pyexc

definition invalid_url :: exn where
  "invalid_url = HTTPException 422 (ascii ''Invalid url'')"

section \<open>Authentication check\<close>

text \<open>
  \<open>API_KEY = (os.getenv("EXTRACT_API_KEY") or "").strip()\<close>, read once at start-up from
  the environment variable (\<open>None\<close> when unset).
\<close>

definition API_KEY :: "pystr option \<Rightarrow> pystr" where
  "API_KEY env = strip (or_empty env)"

text \<open>
  Of a request, the check reads the headers: a map from the lower-case header name to its
  value, so that \<open>request.headers.get(name)\<close> is \<open>None\<close> for an absent header.
\<close>

record request =
  headers :: "pystr \<rightharpoonup> pystr"

definition check_api_key :: "pystr \<Rightarrow> request \<Rightarrow> exn + unit" where
  "check_api_key api_key req =
     (if api_key = [] then Inr ()
      else
        let got = strip (or_empty (headers req (ascii ''x-api-key'')))
        in if got \<noteq> api_key then Inl (HTTPException 401 (ascii ''unauthorized''))
           else Inr ())"

section \<open>Timeout budget\<close>

text \<open>
  \<open>_parse_timeout_s(raw, default_s)\<close>. The builtin \<open>int(raw)\<close> is a parameter \<open>py_int\<close>:
  it gives \<open>None\<close> where the builtin raises (\<open>None\<close>, a non-numeric string, a container,
  a non-finite float), so the function is modelled for every behaviour of the builtin.
\<close>

definition parse_timeout_s :: "('raw \<Rightarrow> int option) \<Rightarrow> 'raw \<Rightarrow> int \<Rightarrow> int" where
  "parse_timeout_s py_int raw default_s =
     (let t = (case py_int raw of Some v \<Rightarrow> v | None \<Rightarrow> default_s);
          t = max 1 (min 180 t)
      in min 60 t)"

text \<open>\<open>connect_timeout_s = min(5, timeout_s)\<close> of \<open>_fetch_html\<close>.\<close>

definition connect_timeout_s :: "int \<Rightarrow> int" where
  "connect_timeout_s timeout_s = min 5 timeout_s"

text \<open>The argument \<open>min(3, timeout_s)\<close> of \<open>socket.setdefaulttimeout\<close> in the DNS check.\<close>

definition dns_timeout_s :: "int \<Rightarrow> int" where
  "dns_timeout_s timeout_s = min 3 timeout_s"

text \<open>
  The budget in the specification's words: \<open>clamp(x, lo, hi)\<close> and
  \<open>min(60, clamp(requested, 1, 180))\<close>, the requested value defaulting to 15.
\<close>

definition clamp :: "int \<Rightarrow> int \<Rightarrow> int \<Rightarrow> int" where
  "clamp x lo hi = (if x < lo then lo else if hi < x then hi else x)"

definition requested_timeout :: "int option \<Rightarrow> int" where
  "requested_timeout parsed = (case parsed of None \<Rightarrow> 15 | Some v \<Rightarrow> v)"

definition spec_effective_timeout :: "int option \<Rightarrow> int" where
  "spec_effective_timeout parsed = min 60 (clamp (requested_timeout parsed) 1 180)"

section \<open>URL validation\<close>

text \<open>
  The result of \<open>urllib.parse.urlparse\<close>, with the attributes the validation reads.
  \<open>port\<close> is computed on access and raises \<open>ValueError\<close> on a malformed or out-of-range
  port, so the field holds that outcome.
\<close>

record parse_result =
  scheme :: pystr
  netloc :: pystr
  username :: "pystr option"
  password :: "pystr option"
  hostname :: "pystr option"
  port :: "pyexc + nat option"

text \<open>
  The library functions the validation calls, as parameters: \<open>urlparse\<close> (which raises
  \<open>ValueError\<close> on, for instance, an unbalanced IPv6 bracket), \<open>str.lower\<close>,
  \<open>ipaddress.ip_address\<close> (\<open>None\<close> where it raises \<open>ValueError\<close>), the attribute
  \<open>is_global\<close> of an address, and \<open>socket.getaddrinfo\<close> for stream sockets, which
  returns the address strings \<open>info[4][0]\<close> of its entries or raises.
\<close>

record 'addr pylib =
  urlparse :: "pystr \<Rightarrow> pyexc + parse_result"
  str_lower :: "pystr \<Rightarrow> pystr"
  ip_address :: "pystr \<Rightarrow> 'addr option"
  is_global :: "'addr \<Rightarrow> bool"
  getaddrinfo :: "pystr \<Rightarrow> nat \<Rightarrow> pyexc + pystr list"

text \<open>
  The process-wide state the validation touches: the default timeout of the socket
  module (\<open>None\<close> or seconds). The writes to it and the calls of the resolver are logged
  in order.
\<close>

record process =
  default_timeout :: "rat option"

datatype effect = SetDefaultTimeout "rat option" | GetAddrInfo pystr nat

definition truthy :: "pystr option \<Rightarrow> bool" where
  "truthy x \<longleftrightarrow> or_empty x \<noteq> []"

definition is_public_ip :: "'addr pylib \<Rightarrow> pystr \<Rightarrow> bool" where
  "is_public_ip L ip = (case ip_address L ip of None \<Rightarrow> False | Some addr \<Rightarrow> is_global L addr)"

text \<open>The loop over the resolved addresses: the first address that is not public raises.\<close>

fun check_infos :: "'addr pylib \<Rightarrow> pystr list \<Rightarrow> exn + unit" where
  "check_infos L [] = Inr ()"
| "check_infos L (ip # infos) =
     (if \<not> is_public_ip L ip then Inl invalid_url else check_infos L infos)"

definition default_port :: "parse_result \<Rightarrow> nat" where
  "default_port p = (if scheme p = ascii ''https'' then 443 else 80)"

text \<open>\<open>p.port or (443 if p.scheme == "https" else 80)\<close>: an absent port and port 0 are falsy.\<close>

definition effective_port :: "parse_result \<Rightarrow> nat option \<Rightarrow> nat" where
  "effective_port p po =
     (case po of None \<Rightarrow> default_port p | Some n \<Rightarrow> if n \<noteq> 0 then n else default_port p)"

text \<open>The body of the \<open>try\<close> block, with the calls it makes into the socket module.\<close>

definition dns_body :: "'addr pylib \<Rightarrow> parse_result \<Rightarrow> pystr \<Rightarrow> (exn + unit) \<times> effect list" where
  "dns_body L p host =
     (case port p of
        Inl e \<Rightarrow> (Inl (PyException e), [])
      | Inr po \<Rightarrow>
          let port = effective_port p po
          in (case getaddrinfo L host port of
                Inl e \<Rightarrow> (Inl (PyException e), [GetAddrInfo host port])
              | Inr infos \<Rightarrow> (check_infos L infos, [GetAddrInfo host port])))"

text \<open>\<open>except HTTPException: raise\<close>, then \<open>except Exception: raise HTTPException(422)\<close>.\<close>

definition dns_except :: "exn + unit \<Rightarrow> exn + unit" where
  "dns_except r =
     (case r of
        Inl (HTTPException c d) \<Rightarrow> Inl (HTTPException c d)
      | Inl (PyException e) \<Rightarrow> Inl invalid_url
      | Inr u \<Rightarrow> Inr u)"

text \<open>
  \<open>(raw_url or "").strip().strip(backtick).strip('"').strip("'")\<close>; code points 96, 34
  and 39 are the backtick, the double quote and the single quote.
\<close>

definition clean_url :: "pystr \<Rightarrow> pystr" where
  "clean_url raw_url = strip_chars [39] (strip_chars [34] (strip_chars [96] (strip raw_url)))"

text \<open>\<open>(p.hostname or "").strip().lower()\<close>.\<close>

definition host_of :: "'addr pylib \<Rightarrow> parse_result \<Rightarrow> pystr" where
  "host_of L p = str_lower L (strip (or_empty (hostname p)))"

text \<open>The test on the host name: \<open>localhost\<close>, or a name ending in \<open>.localhost\<close> or \<open>.local\<close>.\<close>

definition is_local_name :: "pystr \<Rightarrow> bool" where
  "is_local_name host \<longleftrightarrow>
     host = ascii ''localhost'' \<or> suffix (ascii ''.localhost'') host \<or> suffix (ascii ''.local'') host"

text \<open>
  \<open>_validate_public_http_url(raw_url, timeout_s)\<close>: the result (the exception raised or
  the string returned), the process state afterwards and the log of the writes to the
  default timeout and of the resolver calls. \<open>socket.setdefaulttimeout\<close> rejects a
  negative value with \<open>ValueError\<close> and writes nothing; the call stands before the \<open>try\<close>
  block, so the exception leaves the function. (Its one caller passes a \<open>timeout_s\<close> that
  \<open>_parse_timeout_s\<close> returned, between 1 and 60.)
\<close>

definition validate_public_http_url ::
  "'addr pylib \<Rightarrow> process \<Rightarrow> pystr \<Rightarrow> int \<Rightarrow> (exn + pystr) \<times> process \<times> effect list" where
  "validate_public_http_url L st raw_url timeout_s =
     (let s = clean_url raw_url in
      case urlparse L s of
        Inl e \<Rightarrow> (Inl (PyException e), st, [])
      | Inr p \<Rightarrow>
          if scheme p \<noteq> ascii ''http'' \<and> scheme p \<noteq> ascii ''https'' then (Inl invalid_url, st, [])
          else if netloc p = [] \<or> truthy (username p) \<or> truthy (password p)
            then (Inl invalid_url, st, [])
          else
            let host = host_of L p in
            if host = [] then (Inl invalid_url, st, [])
            else if is_local_name host then (Inl invalid_url, st, [])
            else if is_public_ip L host then (Inr s, st, [])
            else if ip_address L host \<noteq> None then (Inl invalid_url, st, [])
            else if dns_timeout_s timeout_s < 0
              then (Inl (PyException (''ValueError'', ascii ''Timeout value out of range'')), st, [])
            else
              let old_timeout = default_timeout st;
                  st1 = st\<lparr>default_timeout := Some (of_int (dns_timeout_s timeout_s))\<rparr>;
                  (r, calls) = dns_body L p host;
                  st2 = st1\<lparr>default_timeout := old_timeout\<rparr>;
                  log = [SetDefaultTimeout (Some (of_int (dns_timeout_s timeout_s)))] @ calls
                        @ [SetDefaultTimeout old_timeout]
              in (case dns_except r of
                    Inl e \<Rightarrow> (Inl e, st2, log)
                  | Inr u \<Rightarrow> (Inr s, st2, log)))"



text \<open>
  The validation reaches the DNS check (line 120) when the URL parses and passes every test
  before it: scheme http or https, a network location, no user name or password, a host
  that is not empty, not a local name and not an address literal.
\<close>

definition reaches_dns_check :: "'addr pylib \<Rightarrow> pystr \<Rightarrow> bool" where
  "reaches_dns_check L raw_url \<longleftrightarrow>
     (case urlparse L (clean_url raw_url) of
        Inl e \<Rightarrow> False
      | Inr p \<Rightarrow>
          (scheme p = ascii ''http'' \<or> scheme p = ascii ''https'')
          \<and> netloc p \<noteq> [] \<and> \<not> truthy (username p) \<and> \<not> truthy (password p)
          \<and> host_of L p \<noteq> [] \<and> \<not> is_local_name (host_of L p)
          \<and> ip_address L (host_of L p) = None)"

text \<open>
  A small library for worked examples: every URL parses to the given result, three address
  literals are known (the second is not global; the third is a global IPv6 address with a
  zone identifier), and the resolver answers for one name and port with the given list.
\<close>

definition example_parse :: "pystr \<Rightarrow> parse_result" where
  "example_parse host =
     \<lparr>scheme = ascii ''http'', netloc = host, username = None, password = None,
      hostname = Some host, port = Inr None\<rparr>"

text \<open>
  What \<open>urlparse\<close> returns for \<open>http://[2001:4860:4860::8888%x.local]/\<close>: the host
  name is the bracketed literal without its brackets.
\<close>

definition example_parse_zone :: parse_result where
  "example_parse_zone =
     \<lparr>scheme = ascii ''http'', netloc = ascii ''[2001:4860:4860::8888%x.local]'',
      username = None, password = None,
      hostname = Some (ascii ''2001:4860:4860::8888%x.local''), port = Inr None\<rparr>"

definition example_lib :: "parse_result \<Rightarrow> pystr list \<Rightarrow> nat pylib" where
  "example_lib p answer =
     \<lparr>urlparse = (\<lambda>s. Inr p),
      str_lower = (\<lambda>s. s),
      ip_address = (\<lambda>s. if s = ascii ''93.184.216.34'' then Some 1
                        else if s = ascii ''10.0.0.7'' then Some 2
                        else if s = ascii ''2001:4860:4860::8888%x.local'' then Some 3
                        else None),
      is_global = (\<lambda>a. a = 1 \<or> a = 3),
      getaddrinfo = (\<lambda>h n. if h = ascii ''example.com'' \<and> n = 80 then Inr answer
                          else Inl (''gaierror'', []))\<rparr>"

section \<open>Fetching\<close>

text \<open>\<open>re.sub(r"\s+", " ", s)\<close>: every maximal run of whitespace becomes one space.\<close>

function collapse_ws :: "pystr \<Rightarrow> pystr" where
  "collapse_ws [] = []"
| "collapse_ws (c # cs) =
     (if isspace c then 32 # collapse_ws (dropWhile isspace cs) else c # collapse_ws cs)"
  by pat_completeness auto
termination
  by (relation "measure length") (auto simp: length_dropWhile_le less_Suc_eq_le)

text \<open>\<open>_short_fetch_reason(e)\<close>: \<open>str(e) or e.__class__.__name__\<close>, collapsed, cut at 200.\<close>

definition short_fetch_reason :: "pyexc \<Rightarrow> pystr" where
  "short_fetch_reason e =
     (let msg = (if snd e \<noteq> [] then snd e else ascii (fst e));
          msg = strip (collapse_ws msg)
      in take 200 msg)"

text \<open>The decimal digits of a status code, as an f-string renders it.\<close>

fun str_nat :: "nat \<Rightarrow> pystr" where
  "str_nat n = (if n < 10 then [48 + n] else str_nat (n div 10) @ [48 + n mod 10])"

type_synonym bytes = "8 word list"

text \<open>
  What \<open>r.iter_content(chunk_size=65536)\<close> yields: chunks of the body and, when the
  transport fails while streaming, the exception it raises there.
\<close>

datatype stream_item = Chunk bytes | StreamError pyexc

text \<open>
  The response of \<open>session.get\<close>. \<open>encoding\<close> is the charset the server declared (or
  \<open>None\<close>); \<open>apparent_encoding\<close> is a property computed on access, which may raise.
\<close>

record response =
  status_code :: nat
  encoding :: "pystr option"
  apparent_encoding :: "pyexc + pystr option"
  iter_content :: "stream_item list"

text \<open>
  The outcome of \<open>session.get\<close>, by the \<open>except\<close> clause that catches it, in their order:
  \<open>requests.Timeout\<close>, \<open>requests.TooManyRedirects\<close>, any other
  \<open>requests.RequestException\<close>, an exception that is none of them, or a response.
\<close>

datatype get_result =
  Timeout pyexc | TooManyRedirects pyexc | RequestException pyexc | OtherException pyexc
  | Response response

text \<open>
  The outcome of the browser session of the rendered fetch (launch, navigation with the
  timeout in milliseconds, \<open>page.content()\<close>, closing the browser): Playwright's
  \<open>TimeoutError\<close>, any other exception, or the content.
\<close>

datatype pw_result = PWTimeoutError | PWException pyexc | PWContent "pystr option"

text \<open>
  The world a fetch runs in: Playwright (\<open>None\<close> when importing it fails), the HTTP
  session (URL, connect and read timeouts, redirect limit), the registry of text codecs
  under the error handler \<open>replace\<close>, and the two limits read from the environment at
  start-up.
\<close>

record world =
  playwright :: "(pystr \<Rightarrow> int \<Rightarrow> pw_result) option"
  session_get :: "pystr \<Rightarrow> int \<times> int \<Rightarrow> int \<Rightarrow> get_result"
  codecs :: "pystr \<rightharpoonup> (bytes \<Rightarrow> pystr)"
  MAX_REDIRECTS :: int
  MAX_HTML_BYTES :: int

text \<open>
  \<open>bytes.decode(encoding, errors="replace")\<close>: the codec is looked up by name, and a name
  that is no text codec raises \<open>LookupError\<close>; a codec that is found substitutes invalid
  byte sequences and returns.
\<close>

definition bytes_decode :: "(pystr \<rightharpoonup> (bytes \<Rightarrow> pystr)) \<Rightarrow> bytes \<Rightarrow> pystr \<Rightarrow> pyexc + pystr" where
  "bytes_decode reg b enc =
     (case reg enc of
        None \<Rightarrow> Inl (''LookupError'', ascii ''unknown encoding: '' @ enc)
      | Some dec \<Rightarrow> Inr (dec b))"

text \<open>
  The loop over the chunks: an empty chunk is skipped, a chunk is appended, and the
  length of the buffer is compared with the limit after each append.
\<close>

fun read_chunks :: "int \<Rightarrow> stream_item list \<Rightarrow> bytes \<Rightarrow> exn + bytes" where
  "read_chunks mx [] buf = Inr buf"
| "read_chunks mx (StreamError e # items) buf = Inl (PyException e)"
| "read_chunks mx (Chunk chunk # items) buf =
     (if chunk = [] then read_chunks mx items buf
      else
        let buf' = buf @ chunk
        in if int (length buf') > mx
           then Inl (HTTPException 502 (ascii ''fetch failed: html too large''))
           else read_chunks mx items buf')"

text \<open>\<open>r.encoding or getattr(r, "apparent_encoding", None) or "utf-8"\<close>.\<close>

definition select_encoding :: "response \<Rightarrow> pyexc + pystr" where
  "select_encoding r =
     (if truthy (encoding r) then Inr (or_empty (encoding r))
      else (case apparent_encoding r of
              Inl e \<Rightarrow> Inl e
            | Inr a \<Rightarrow> if truthy a then Inr (or_empty a) else Inr (ascii ''utf-8'')))"

text \<open>The part of \<open>_fetch_html\<close> after the status check: read, decode, trim.\<close>

definition read_and_decode :: "world \<Rightarrow> response \<Rightarrow> exn + pystr" where
  "read_and_decode W r =
     (case read_chunks (MAX_HTML_BYTES W) (iter_content r) [] of
        Inl e \<Rightarrow> Inl e
      | Inr buf \<Rightarrow>
          (case select_encoding r of
             Inl e \<Rightarrow> Inl (PyException e)
           | Inr enc \<Rightarrow>
               (case bytes_decode (codecs W) buf enc of
                  Inl e \<Rightarrow> Inl (PyException e)
                | Inr text \<Rightarrow>
                    let html = strip text
                    in if html = [] then Inl (HTTPException 502 (ascii ''fetch failed: empty html''))
                       else Inr html)))"

definition fetch_html :: "world \<Rightarrow> pystr \<Rightarrow> int \<Rightarrow> exn + pystr" where
  "fetch_html W url timeout_s =
     (case session_get W url (connect_timeout_s timeout_s, timeout_s) (MAX_REDIRECTS W) of
        Timeout e \<Rightarrow> Inl (HTTPException 504 (ascii ''timeout''))
      | TooManyRedirects e \<Rightarrow>
          Inl (HTTPException 502
                 (ascii ''fetch failed: too many redirects ('' @ short_fetch_reason e @ ascii '')''))
      | RequestException e \<Rightarrow>
          Inl (HTTPException 502 (ascii ''fetch failed: '' @ short_fetch_reason e))
      | OtherException e \<Rightarrow> Inl (PyException e)
      | Response r \<Rightarrow>
          if status_code r \<ge> 400
          then Inl (HTTPException 502
                      (ascii ''fetch failed: upstream http '' @ str_nat (status_code r)))
          else read_and_decode W r)"

definition fetch_html_rendered :: "world \<Rightarrow> pystr \<Rightarrow> int \<Rightarrow> exn + pystr" where
  "fetch_html_rendered W url timeout_s =
     (let timeout_ms = min 60 timeout_s * 1000 in
      case playwright W of
        None \<Rightarrow> Inl (PyException (''RuntimeError'', ascii ''playwright unavailable''))
      | Some browse \<Rightarrow>
          (case browse url timeout_ms of
             PWTimeoutError \<Rightarrow> Inl (HTTPException 504 (ascii ''timeout''))
           | PWException e \<Rightarrow>
               Inl (HTTPException 502 (ascii ''fetch failed: '' @ short_fetch_reason e))
           | PWContent c \<Rightarrow>
               let html = strip (or_empty c)
               in if html = [] then Inl (HTTPException 502 (ascii ''fetch failed: empty html''))
                  else Inr html))"

text \<open>
  \<open>_fetch_html_best_effort\<close>, with the list of the fetches it attempted, in order.
\<close>

datatype strategy = Rendered | Streamed

definition fetch_html_best_effort :: "world \<Rightarrow> pystr \<Rightarrow> int \<Rightarrow> (exn + pystr) \<times> strategy list" where
  "fetch_html_best_effort W url timeout_s =
     (case fetch_html_rendered W url timeout_s of
        Inr html \<Rightarrow> (Inr html, [Rendered])
      | Inl (HTTPException code d) \<Rightarrow>
          if code = 504 then (Inl (HTTPException code d), [Rendered])
          else (fetch_html W url timeout_s, [Rendered, Streamed])
      | Inl (PyException e) \<Rightarrow> (fetch_html W url timeout_s, [Rendered, Streamed]))"

text \<open>The exception of the size check, and the chunks of a stream for stating properties.\<close>

definition too_large :: exn where
  "too_large = HTTPException 502 (ascii ''fetch failed: html too large'')"

fun chunk_bytes :: "stream_item \<Rightarrow> bytes" where
  "chunk_bytes (Chunk c) = c"
| "chunk_bytes (StreamError e) = []"

fun is_chunk :: "stream_item \<Rightarrow> bool" where
  "is_chunk (Chunk c) = True"
| "is_chunk (StreamError e) = False"

text \<open>
  A world for worked examples: the Latin-1 codec alone is registered (it maps each byte to
  the code point of the same number), the session answers every request alike, and the
  limits have their default values.
\<close>

definition example_world ::
  "(pystr \<Rightarrow> int \<Rightarrow> pw_result) option \<Rightarrow> get_result \<Rightarrow> world" where
  "example_world pw answer =
     \<lparr>playwright = pw,
      session_get = (\<lambda>url timeouts redirects. answer),
      codecs = [ascii ''ISO-8859-1'' \<mapsto> map unat],
      MAX_REDIRECTS = 5,
      MAX_HTML_BYTES = 5000000\<rparr>"

definition example_response :: "pystr option \<Rightarrow> bytes list \<Rightarrow> response" where
  "example_response charset body =
     \<lparr>status_code = 200, encoding = charset, apparent_encoding = Inr None,
      iter_content = map Chunk body\<rparr>"

section \<open>Text normalisation\<close>

text \<open>
  \<open>s.split(sep)\<close> for a non-empty separator: the pieces between the leftmost
  non-overlapping occurrences of \<open>sep\<close>. (Python raises on an empty separator; the
  program splits on two newlines only.)
\<close>

fun py_split :: "pystr \<Rightarrow> pystr \<Rightarrow> pystr list" where
  "py_split sep [] = [[]]"
| "py_split sep (c # cs) =
     (if sep \<noteq> [] \<and> prefix sep (c # cs) then [] # py_split sep (drop (length sep - 1) cs)
      else (case py_split sep cs of
              [] \<Rightarrow> [[c]]
            | piece # pieces \<Rightarrow> (c # piece) # pieces))"

fun py_join :: "pystr \<Rightarrow> pystr list \<Rightarrow> pystr" where
  "py_join sep [] = []"
| "py_join sep [x] = x"
| "py_join sep (x # y # ys) = x @ sep @ py_join sep (y # ys)"

text \<open>
  The loop of \<open>_dedupe_blocks\<close> over the stripped blocks, with the set \<open>seen\<close> and the
  list \<open>out\<close>. The key of a block is \<open>re.sub(r"\s+", " ", b).strip().lower()\<close>;
  \<open>str.lower\<close> is a parameter (its Unicode tables are not part of the program).
\<close>

definition block_key :: "(pystr \<Rightarrow> pystr) \<Rightarrow> pystr \<Rightarrow> pystr" where
  "block_key lower b = lower (strip (collapse_ws b))"

fun dedupe_loop :: "(pystr \<Rightarrow> pystr) \<Rightarrow> pystr list \<Rightarrow> pystr set \<Rightarrow> pystr list \<Rightarrow> pystr list" where
  "dedupe_loop lower [] seen out = out"
| "dedupe_loop lower (b # blocks) seen out =
     (if b = [] then dedupe_loop lower blocks seen out
      else
        let key = block_key lower b
        in if key = [] \<or> key \<in> seen then dedupe_loop lower blocks seen out
           else dedupe_loop lower blocks (insert key seen) (out @ [b]))"

definition dedupe_blocks :: "(pystr \<Rightarrow> pystr) \<Rightarrow> pystr \<Rightarrow> pystr" where
  "dedupe_blocks lower text =
     (let blocks = map strip (py_split [10, 10] text)
      in strip (py_join [10, 10] (dedupe_loop lower blocks {} [])))"

text \<open>
  The truncation marker (nine code points, U+FF08 ... U+FF09) and the suffix the length
  cap appends: two newlines, then the marker.
\<close>

definition truncation_marker :: pystr where
  "truncation_marker = [65288, 20869, 23481, 36807, 38271, 24050, 25130, 26029, 65289]"

definition truncation_suffix :: pystr where
  "truncation_suffix = [10, 10] @ truncation_marker"

definition apply_limits :: "pystr \<Rightarrow> pystr" where
  "apply_limits text =
     (let s = strip text
      in if length s > 12000 then rstrip (take 12000 s) @ truncation_suffix else s)"

text \<open>A string that \<open>strip\<close> leaves as it is: empty, or with no whitespace at either end.\<close>

definition stripped :: "pystr \<Rightarrow> bool" where
  "stripped s \<longleftrightarrow> s = [] \<or> (\<not> isspace (hd s) \<and> \<not> isspace (last s))"

text \<open>
  Three texts of 12001 characters for worked examples: the letter a throughout; a space
  as the 12000th character; and five spaces before the last character.
\<close>

definition long_a :: pystr where
  "long_a = replicate 12001 97"

definition space_at_cap :: pystr where
  "space_at_cap = replicate 11999 97 @ [32, 98]"

definition spaces_before_cap :: pystr where
  "spaces_before_cap = replicate 11995 97 @ replicate 5 32 @ [98]"

text \<open>
  A block as the deduplication keeps it: not empty, with no whitespace at either end, and
  without two newlines in a row.
\<close>

definition block_ok :: "pystr \<Rightarrow> bool" where
  "block_ok b \<longleftrightarrow> b \<noteq> [] \<and> stripped b \<and> \<not> sublist [10, 10] b"

text \<open>Lower-casing of the letters A to Z only, for worked examples.\<close>

definition ascii_lower :: "pystr \<Rightarrow> pystr" where
  "ascii_lower s = map (\<lambda>c. if 65 \<le> c \<and> c \<le> 90 then c + 32 else c) s"

section \<open>Properties of the authentication check and the timeout budget\<close>

lemma strip_Nil: "strip [] = []"
  by (simp add: strip_def lstrip_def rstrip_def)

text \<open>
  Claim C10. The authentication check raises exactly when the configured key is not empty
  and the trimmed \<open>x-api-key\<close> header (the empty string when the header is absent) differs
  from it; the exception is then \<open>HTTPException(401, "unauthorized")\<close>. When the environment
  variable is unset or empty, every request passes, whatever its header.
\<close>

theorem check_api_key_unauthorized_iff:
  "((\<exists>e. check_api_key (API_KEY env) req = Inl e) \<longleftrightarrow>
      (API_KEY env \<noteq> [] \<and> strip (or_empty (headers req (ascii ''x-api-key''))) \<noteq> API_KEY env))
   \<and> (\<forall>e. check_api_key (API_KEY env) req = Inl e \<longrightarrow> e = HTTPException 401 (ascii ''unauthorized''))
   \<and> (or_empty env = [] \<longrightarrow> check_api_key (API_KEY env) req = Inr ())"
  by (auto simp: check_api_key_def Let_def API_KEY_def strip_Nil)

text \<open>With no key configured, a request that carries a key passes.\<close>

theorem check_api_key_unauthorized_iff_witness:
  "or_empty None = [] \<and>
   check_api_key (API_KEY None)
     \<lparr>headers = [ascii ''x-api-key'' \<mapsto> ascii ''secret'']\<rparr> = Inr ()"
  using check_api_key_unauthorized_iff
    [of None "\<lparr>headers = [ascii ''x-api-key'' \<mapsto> ascii ''secret'']\<rparr>"]
  by (simp add: or_empty_def)

text \<open>
  With the key \<open>k1\<close> configured: a header that equals it up to surrounding whitespace
  passes, an absent header and a header in another case are refused.
\<close>

lemma check_api_key_examples:
  "check_api_key (API_KEY (Some (ascii '' k1 '')))
     \<lparr>headers = [ascii ''x-api-key'' \<mapsto> ascii ''k1  '']\<rparr> = Inr ()"
  "check_api_key (API_KEY (Some (ascii '' k1 '')))
     \<lparr>headers = Map.empty\<rparr> = Inl (HTTPException 401 (ascii ''unauthorized''))"
  "check_api_key (API_KEY (Some (ascii ''k1'')))
     \<lparr>headers = [ascii ''x-api-key'' \<mapsto> ascii ''K1'']\<rparr>
     = Inl (HTTPException 401 (ascii ''unauthorized''))"
  by (simp_all add: check_api_key_def API_KEY_def or_empty_def strip_def lstrip_def rstrip_def
        isspace_def ascii_def)

text \<open>
  Claim C6. With the default of 15 seconds, \<open>_parse_timeout_s\<close> computes
  \<open>min(60, clamp(requested, 1, 180))\<close>, where the requested value is what \<open>int(raw)\<close> gives
  and 15 where it raises; the connect timeout of the streamed fetch is the minimum of 5 and
  that value, and the timeout of the DNS check the minimum of 3 and that value.
\<close>

theorem timeout_budget:
  "parse_timeout_s py_int raw 15 = spec_effective_timeout (py_int raw)
   \<and> connect_timeout_s (parse_timeout_s py_int raw 15) = min 5 (spec_effective_timeout (py_int raw))
   \<and> dns_timeout_s (parse_timeout_s py_int raw 15) = min 3 (spec_effective_timeout (py_int raw))"
  by (simp add: parse_timeout_s_def spec_effective_timeout_def requested_timeout_def clamp_def
        connect_timeout_s_def dns_timeout_s_def Let_def split: option.splits)

lemma parse_timeout_s_examples:
  "parse_timeout_s (\<lambda>r. r) None 15 = 15"
  "parse_timeout_s (\<lambda>r. r) (Some 0) 15 = 1"
  "parse_timeout_s (\<lambda>r. r) (Some 45) 15 = 45"
  "parse_timeout_s (\<lambda>r. r) (Some 120) 15 = 60"
  "parse_timeout_s (\<lambda>r. r) (Some 1000) 15 = 60"
  "parse_timeout_s (\<lambda>r. r) (Some (- 3)) 15 = 1"
  by (simp_all add: parse_timeout_s_def)

lemma parse_timeout_s_range:
  "1 \<le> parse_timeout_s py_int raw d \<and> parse_timeout_s py_int raw d \<le> 60"
  by (simp add: parse_timeout_s_def Let_def)

section \<open>Properties of the URL validation\<close>

lemmas example_simps = example_parse_def example_parse_zone_def example_lib_def ascii_def
  clean_url_def host_of_def is_local_name_def validate_public_http_url_def strip_def lstrip_def
  rstrip_def strip_chars_def isspace_def truthy_def or_empty_def is_public_ip_def dns_body_def
  dns_except_def default_port_def effective_port_def dns_timeout_s_def invalid_url_def
  reaches_dns_check_def suffix_def Let_def

lemma check_infos_iff:
  "check_infos L ips = (if list_all (is_public_ip L) ips then Inr () else Inl invalid_url)"
  by (induction ips) auto

lemma dns_except_dns_body:
  "dns_except (fst (dns_body L p host)) =
     (case port p of
        Inl e \<Rightarrow> Inl invalid_url
      | Inr po \<Rightarrow>
          (case getaddrinfo L host (effective_port p po) of
             Inl e \<Rightarrow> Inl invalid_url
           | Inr ips \<Rightarrow> if list_all (is_public_ip L) ips then Inr () else Inl invalid_url))"
  by (auto simp: dns_body_def dns_except_def check_infos_iff invalid_url_def Let_def
        split: sum.splits option.splits)


text \<open>The validation of a URL that parses, path by path.\<close>

lemma validate_parsed:
  assumes "urlparse L (clean_url raw) = Inr p"
  shows "validate_public_http_url L st raw t =
     (if (scheme p \<noteq> ascii ''http'' \<and> scheme p \<noteq> ascii ''https'') \<or> netloc p = []
          \<or> truthy (username p) \<or> truthy (password p)
          \<or> host_of L p = [] \<or> is_local_name (host_of L p)
        then (Inl invalid_url, st, [])
      else if is_public_ip L (host_of L p) then (Inr (clean_url raw), st, [])
      else if ip_address L (host_of L p) \<noteq> None then (Inl invalid_url, st, [])
      else if t < 0
        then (Inl (PyException (''ValueError'', ascii ''Timeout value out of range'')), st, [])
      else
        ((case dns_except (fst (dns_body L p (host_of L p))) of
            Inl e \<Rightarrow> Inl e
          | Inr u \<Rightarrow> Inr (clean_url raw)),
         st,
         [SetDefaultTimeout (Some (of_int (min 3 t)))] @ snd (dns_body L p (host_of L p))
           @ [SetDefaultTimeout (default_timeout st)]))"
  using assms
  by (simp add: validate_public_http_url_def Let_def dns_timeout_s_def
        split: sum.splits prod.splits)

lemma validate_unparsed:
  "urlparse L (clean_url raw) = Inl e \<Longrightarrow>
     validate_public_http_url L st raw t = (Inl (PyException e), st, [])"
  by (simp add: validate_public_http_url_def)

lemma validate_state: "fst (snd (validate_public_http_url L st raw t)) = st"
proof (cases "urlparse L (clean_url raw)")
  case (Inl e)
  then show ?thesis by (simp add: validate_unparsed)
next
  case (Inr p)
  then show ?thesis by (simp add: validate_parsed)
qed

text \<open>
  The result at the DNS check, for a budget that is not negative: the port must parse, the
  resolver must return, and every address it returns must be public.
\<close>

lemma validate_domain_result:
  assumes "urlparse L (clean_url raw) = Inr p"
    and "scheme p = ascii ''http'' \<or> scheme p = ascii ''https''"
    and "netloc p \<noteq> []" and "\<not> truthy (username p)" and "\<not> truthy (password p)"
    and "host_of L p \<noteq> []" and "\<not> is_local_name (host_of L p)"
    and "ip_address L (host_of L p) = None" and "0 \<le> t"
  shows "fst (validate_public_http_url L st raw t) =
     (case port p of
        Inl e \<Rightarrow> Inl invalid_url
      | Inr po \<Rightarrow>
          (case getaddrinfo L (host_of L p) (effective_port p po) of
             Inl e \<Rightarrow> Inl invalid_url
           | Inr ips \<Rightarrow> if list_all (is_public_ip L) ips then Inr (clean_url raw) else Inl invalid_url))"
proof -
  have pub: "\<not> is_public_ip L (host_of L p)"
    using assms(8) by (simp add: is_public_ip_def)
  have "fst (validate_public_http_url L st raw t) =
      (case dns_except (fst (dns_body L p (host_of L p))) of
         Inl e \<Rightarrow> Inl e | Inr u \<Rightarrow> Inr (clean_url raw))"
    using assms pub by (auto simp: validate_parsed [OF assms(1)])
  then show ?thesis
    by (simp add: dns_except_dns_body split: sum.splits)
qed

text \<open>
  A URL that parses, whose host is no address literal and which fails one of the tests
  before the DNS check, is refused.
\<close>

lemma validate_before_dns:
  assumes "urlparse L (clean_url raw) = Inr p" and "ip_address L (host_of L p) = None"
    and "(scheme p \<noteq> ascii ''http'' \<and> scheme p \<noteq> ascii ''https'') \<or> netloc p = []
          \<or> truthy (username p) \<or> truthy (password p)
          \<or> host_of L p = [] \<or> is_local_name (host_of L p)"
  shows "fst (validate_public_http_url L st raw t) = Inl invalid_url"
  using assms(3) by (simp add: validate_parsed [OF assms(1)])

text \<open>
  Claim C1. Let the URL parse, let its host be no address literal and no local name, let
  the budget be non-negative, and let the resolver keep the contract of
  \<open>socket.getaddrinfo\<close>, which returns at least one entry when it returns. Then the
  validation succeeds only if the port parses, the resolution succeeds with at least one
  address and every resolved address is public; whenever that condition fails (the
  resolution fails, produces zero results, or some address is not public) the validation
  raises \<open>HTTPException(422, "Invalid url")\<close>. Conversely, with scheme http or https, a
  network location, no user name or password and a non-empty host, the condition makes the
  validation return the cleaned URL.
\<close>

theorem validate_domain_name:
  assumes "urlparse L (clean_url raw) = Inr p"
    and "ip_address L (host_of L p) = None" and "\<not> is_local_name (host_of L p)"
    and "0 \<le> t"
    and "\<forall>h n. getaddrinfo L h n \<noteq> Inr []"
  shows "((\<exists>u. fst (validate_public_http_url L st raw t) = Inr u) \<longrightarrow>
           (\<exists>po ips. port p = Inr po
              \<and> getaddrinfo L (host_of L p) (effective_port p po) = Inr ips
              \<and> ips \<noteq> [] \<and> list_all (is_public_ip L) ips))
         \<and> (\<not> (\<exists>po ips. port p = Inr po
              \<and> getaddrinfo L (host_of L p) (effective_port p po) = Inr ips
              \<and> ips \<noteq> [] \<and> list_all (is_public_ip L) ips) \<longrightarrow>
            fst (validate_public_http_url L st raw t) = Inl invalid_url)
         \<and> ((scheme p = ascii ''http'' \<or> scheme p = ascii ''https'') \<and> netloc p \<noteq> []
              \<and> \<not> truthy (username p) \<and> \<not> truthy (password p) \<and> host_of L p \<noteq> []
              \<and> (\<exists>po ips. port p = Inr po
                    \<and> getaddrinfo L (host_of L p) (effective_port p po) = Inr ips
                    \<and> ips \<noteq> [] \<and> list_all (is_public_ip L) ips) \<longrightarrow>
            fst (validate_public_http_url L st raw t) = Inr (clean_url raw))"
proof (cases "(scheme p = ascii ''http'' \<or> scheme p = ascii ''https'') \<and> netloc p \<noteq> []
              \<and> \<not> truthy (username p) \<and> \<not> truthy (password p) \<and> host_of L p \<noteq> []")
  case True
  then have r: "fst (validate_public_http_url L st raw t) =
     (case port p of
        Inl e \<Rightarrow> Inl invalid_url
      | Inr po \<Rightarrow>
          (case getaddrinfo L (host_of L p) (effective_port p po) of
             Inl e \<Rightarrow> Inl invalid_url
           | Inr ips \<Rightarrow> if list_all (is_public_ip L) ips then Inr (clean_url raw) else Inl invalid_url))"
    using validate_domain_result [of L raw p t st] assms by blast
  show ?thesis
    unfolding r using assms(5) by (auto simp: invalid_url_def split: sum.splits)
next
  case False
  then have "fst (validate_public_http_url L st raw t) = Inl invalid_url"
    using validate_before_dns [OF assms(1,2), of st t] by blast
  with False show ?thesis by auto
qed

text \<open>
  The name \<open>example.com\<close>: refused when the resolver answers with a public and a private
  address, accepted when it answers with the public address alone.
\<close>

theorem validate_domain_name_witness:
  "fst (validate_public_http_url
          (example_lib (example_parse (ascii ''example.com'')) [ascii ''93.184.216.34'', ascii ''10.0.0.7''])
          \<lparr>default_timeout = None\<rparr> (ascii '' http://example.com/ '') 15)
     = Inl invalid_url
   \<and> fst (validate_public_http_url
          (example_lib (example_parse (ascii ''example.com'')) [ascii ''93.184.216.34''])
          \<lparr>default_timeout = None\<rparr> (ascii '' http://example.com/ '') 15)
     = Inr (ascii ''http://example.com/'')"
  using validate_domain_name
    [of "example_lib (example_parse (ascii ''example.com'')) [ascii ''93.184.216.34'', ascii ''10.0.0.7'']"
        "ascii '' http://example.com/ ''" "example_parse (ascii ''example.com'')" 15
        "\<lparr>default_timeout = None\<rparr>"]
    validate_domain_name
    [of "example_lib (example_parse (ascii ''example.com'')) [ascii ''93.184.216.34'']"
        "ascii '' http://example.com/ ''" "example_parse (ascii ''example.com'')" 15
        "\<lparr>default_timeout = None\<rparr>"]
  by (simp add: example_simps)

text \<open>
  The emptiness of the result is excluded by the resolver, not by a test in the code: the
  loop over the entries raises on an entry that is not public and on nothing else, so a
  resolver that returned no entry, against its contract, would have its name accepted.
\<close>

lemma validate_relies_on_resolver_contract:
  "fst (validate_public_http_url (example_lib (example_parse (ascii ''example.com'')) [])
            \<lparr>default_timeout = None\<rparr> (ascii ''http://example.com/'') 15)
       = Inr (ascii ''http://example.com/'')"
  by (simp add: example_simps)

text \<open>
  Claim C2, as the code has it. For a URL that parses: a host that is \<open>localhost\<close> or ends
  in \<open>.localhost\<close> or \<open>.local\<close> is refused with \<open>HTTPException(422, "Invalid url")\<close>, whether
  or not it is an address literal; and with scheme http or https, a network location, no
  user name or password and a non-empty host that passed that test and is an address
  literal, the URL is returned when the address is global and refused with the same
  exception otherwise. Neither path writes the default timeout or calls the resolver, for
  any budget.
\<close>

theorem validate_local_names_and_ip_literals:
  assumes "urlparse L (clean_url raw) = Inr p"
  shows "(is_local_name (host_of L p) \<longrightarrow>
            validate_public_http_url L st raw t = (Inl invalid_url, st, []))
         \<and> ((scheme p = ascii ''http'' \<or> scheme p = ascii ''https'') \<and> netloc p \<noteq> []
              \<and> \<not> truthy (username p) \<and> \<not> truthy (password p)
              \<and> host_of L p \<noteq> [] \<and> \<not> is_local_name (host_of L p) \<longrightarrow>
            (\<forall>a. ip_address L (host_of L p) = Some a \<longrightarrow>
               validate_public_http_url L st raw t =
                 (if is_global L a then Inr (clean_url raw) else Inl invalid_url, st, [])))"
  by (auto simp: validate_parsed [OF assms] is_public_ip_def)

text \<open>A name under \<open>.localhost\<close>, a global address literal and a private address literal.\<close>

theorem validate_local_names_and_ip_literals_witness:
  "validate_public_http_url (example_lib (example_parse (ascii ''api.localhost'')) [])
      \<lparr>default_timeout = None\<rparr> (ascii ''http://api.localhost/'') 15
     = (Inl invalid_url, \<lparr>default_timeout = None\<rparr>, [])
   \<and> validate_public_http_url (example_lib (example_parse (ascii ''93.184.216.34'')) [])
      \<lparr>default_timeout = None\<rparr> (ascii ''http://93.184.216.34/'') 15
     = (Inr (ascii ''http://93.184.216.34/''), \<lparr>default_timeout = None\<rparr>, [])
   \<and> validate_public_http_url (example_lib (example_parse (ascii ''10.0.0.7'')) [])
      \<lparr>default_timeout = None\<rparr> (ascii ''http://10.0.0.7/'') 15
     = (Inl invalid_url, \<lparr>default_timeout = None\<rparr>, [])"
  using validate_local_names_and_ip_literals
    [of "example_lib (example_parse (ascii ''api.localhost'')) []" "ascii ''http://api.localhost/''"
        "example_parse (ascii ''api.localhost'')" "\<lparr>default_timeout = None\<rparr>" 15]
    validate_local_names_and_ip_literals
    [of "example_lib (example_parse (ascii ''93.184.216.34'')) []" "ascii ''http://93.184.216.34/''"
        "example_parse (ascii ''93.184.216.34'')" "\<lparr>default_timeout = None\<rparr>" 15]
    validate_local_names_and_ip_literals
    [of "example_lib (example_parse (ascii ''10.0.0.7'')) []" "ascii ''http://10.0.0.7/''"
        "example_parse (ascii ''10.0.0.7'')" "\<lparr>default_timeout = None\<rparr>" 15]
  by (simp add: example_simps)

text \<open>
  Claim C2 as stated fails for an address literal that is also a local name. The host of
  \<open>http://[2001:4860:4860::8888%x.local]/\<close> is an IPv6 literal with the zone identifier
  \<open>x.local\<close>; the address is global, the scheme is http and there is no user name or
  password, and the validation raises \<open>HTTPException(422, "Invalid url")\<close> because the host
  ends in \<open>.local\<close>.
\<close>

theorem validate_refuses_global_literal_in_local_zone:
  "host_of (example_lib example_parse_zone []) example_parse_zone
     = ascii ''2001:4860:4860::8888%x.local''
   \<and> ip_address (example_lib example_parse_zone []) (ascii ''2001:4860:4860::8888%x.local'') = Some 3
   \<and> is_global (example_lib example_parse_zone []) 3
   \<and> scheme example_parse_zone = ascii ''http''
   \<and> username example_parse_zone = None \<and> password example_parse_zone = None
   \<and> fst (validate_public_http_url (example_lib example_parse_zone [])
            \<lparr>default_timeout = None\<rparr> (ascii ''http://[2001:4860:4860::8888%x.local]/'') 15)
       = Inl invalid_url"
  by (simp add: example_simps)




section \<open>Properties of the fetch\<close>

lemmas fetch_simps = example_world_def example_response_def fetch_html_def fetch_html_rendered_def
  fetch_html_best_effort_def read_and_decode_def select_encoding_def bytes_decode_def
  connect_timeout_s_def truthy_def or_empty_def strip_def lstrip_def rstrip_def isspace_def
  ascii_def Let_def

text \<open>
  The streamed fetch reads its session through one call only: the URL with the connect
  timeout \<open>min(5, timeout_s)\<close>, the read timeout \<open>timeout_s\<close> and the redirect limit. The
  rendered fetch passes the browser \<open>min(60, timeout_s)\<close> seconds in milliseconds.
\<close>

lemma read_and_decode_session: "read_and_decode (W\<lparr>session_get := f\<rparr>) r = read_and_decode W r"
  by (simp add: read_and_decode_def split: sum.splits)

lemma fetch_html_session_call:
  "fetch_html W url t =
     fetch_html (W\<lparr>session_get :=
        (\<lambda>u timeouts redirects. session_get W url (min 5 t, t) (MAX_REDIRECTS W))\<rparr>) url t"
  by (simp add: fetch_html_def connect_timeout_s_def read_and_decode_session
        split: get_result.splits)

lemma fetch_html_rendered_browser_call:
  "fetch_html_rendered W url t =
     fetch_html_rendered (W\<lparr>playwright :=
        map_option (\<lambda>browse u ms. browse url (min 60 t * 1000)) (playwright W)\<rparr>) url t"
  by (cases "playwright W") (simp_all add: fetch_html_rendered_def)

text \<open>
  Claim C4. The rendered fetch is attempted first. When it raises
  \<open>HTTPException(504)\<close>, that exception is the result and the streamed fetch is not
  attempted. When it raises anything else, and in particular when Playwright cannot be
  imported, the streamed fetch is attempted and its result or exception is the result.
  When it returns, its HTML is the result.
\<close>

theorem fetch_best_effort_policy:
  "hd (snd (fetch_html_best_effort W url t)) = Rendered
   \<and> (\<forall>d. fetch_html_rendered W url t = Inl (HTTPException 504 d) \<longrightarrow>
         fetch_html_best_effort W url t = (Inl (HTTPException 504 d), [Rendered]))
   \<and> (\<forall>e. fetch_html_rendered W url t = Inl e \<and> (\<forall>d. e \<noteq> HTTPException 504 d) \<longrightarrow>
         fetch_html_best_effort W url t = (fetch_html W url t, [Rendered, Streamed]))
   \<and> (playwright W = None \<longrightarrow>
         fetch_html_best_effort W url t = (fetch_html W url t, [Rendered, Streamed]))
   \<and> (\<forall>html. fetch_html_rendered W url t = Inr html \<longrightarrow>
         fetch_html_best_effort W url t = (Inr html, [Rendered]))"
  by (auto simp: fetch_html_best_effort_def fetch_html_rendered_def split: sum.splits exn.splits)

text \<open>
  A rendered timeout, which ends the fetch; Playwright unavailable, where the streamed fetch
  answers; and an empty rendered page followed by a streamed timeout.
\<close>

theorem fetch_best_effort_policy_witness:
  "fetch_html_best_effort
      (example_world (Some (\<lambda>url ms. PWTimeoutError))
         (Response (example_response (Some (ascii ''ISO-8859-1'')) [[0x3C, 0x70, 0x3E]])))
      (ascii ''http://example.com/'') 15
     = (Inl (HTTPException 504 (ascii ''timeout'')), [Rendered])
   \<and> fetch_html_best_effort
      (example_world None
         (Response (example_response (Some (ascii ''ISO-8859-1'')) [[0x3C, 0x70, 0x3E]])))
      (ascii ''http://example.com/'') 15
     = (Inr (ascii ''<p>''), [Rendered, Streamed])
   \<and> fetch_html_best_effort
      (example_world (Some (\<lambda>url ms. PWContent (Some [])))
         (Timeout (''ReadTimeout'', [])))
      (ascii ''http://example.com/'') 15
     = (Inl (HTTPException 504 (ascii ''timeout'')), [Rendered, Streamed])"
  using fetch_best_effort_policy
    [of "example_world (Some (\<lambda>url ms. PWTimeoutError))
         (Response (example_response (Some (ascii ''ISO-8859-1'')) [[0x3C, 0x70, 0x3E]]))"
        "ascii ''http://example.com/''" 15]
    fetch_best_effort_policy
    [of "example_world None
         (Response (example_response (Some (ascii ''ISO-8859-1'')) [[0x3C, 0x70, 0x3E]]))"
        "ascii ''http://example.com/''" 15]
    fetch_best_effort_policy
    [of "example_world (Some (\<lambda>url ms. PWContent (Some [])))
         (Timeout (''ReadTimeout'', []))"
        "ascii ''http://example.com/''" 15]
  by (simp add: fetch_simps)

text \<open>
  The size limit of the streamed fetch (first part of claim C5). A successful read returns
  the buffer it started with or a buffer within the limit; and once the chunks read so far
  exceed the limit, the read raises the exception of the size check, whatever follows.
\<close>

lemma read_chunks_bound:
  "read_chunks mx items buf = Inr b \<Longrightarrow> b = buf \<or> int (length b) \<le> mx"
proof (induction mx items buf rule: read_chunks.induct)
  case (3 mx chunk items buf)
  then show ?case
    by (auto simp: Let_def split: if_splits)
qed auto


lemma read_chunks_too_large:
  "list_all is_chunk pre \<Longrightarrow> int (length buf) \<le> mx
   \<Longrightarrow> int (length (buf @ concat (map chunk_bytes pre))) > mx
   \<Longrightarrow> read_chunks mx (pre @ rest) buf = Inl too_large"
proof (induction pre arbitrary: buf)
  case Nil
  then show ?case by simp
next
  case (Cons x pre)
  then obtain c where x: "x = Chunk c" by (cases x) auto
  show ?case
  proof (cases "c = []")
    case True
    with Cons x show ?thesis by simp
  next
    case False
    show ?thesis
    proof (cases "int (length (buf @ c)) > mx")
      case True
      with False x show ?thesis by (simp add: too_large_def)
    next
      case False
      with Cons.prems x Cons.IH [of "buf @ c"] \<open>c \<noteq> []\<close> show ?thesis by simp
    qed
  qed
qed

text \<open>
  A successful streamed fetch decoded a buffer of at most \<open>MAX_HTML_BYTES\<close> bytes with a
  registered codec, and a registered codec never raises.
\<close>

lemma fetch_html_success:
  assumes "0 \<le> MAX_HTML_BYTES W" and "fetch_html W url t = Inr html"
  shows "\<exists>r buf enc dec.
           session_get W url (min 5 t, t) (MAX_REDIRECTS W) = Response r
           \<and> read_chunks (MAX_HTML_BYTES W) (iter_content r) [] = Inr buf
           \<and> int (length buf) \<le> MAX_HTML_BYTES W
           \<and> select_encoding r = Inr enc \<and> codecs W enc = Some dec
           \<and> html = strip (dec buf) \<and> html \<noteq> []"
proof -
  from assms(2) obtain r where r: "session_get W url (min 5 t, t) (MAX_REDIRECTS W) = Response r"
    and rd: "read_and_decode W r = Inr html"
    by (auto simp: fetch_html_def connect_timeout_s_def split: get_result.splits if_splits)
  from rd obtain buf enc dec where
    b: "read_chunks (MAX_HTML_BYTES W) (iter_content r) [] = Inr buf"
    and e: "select_encoding r = Inr enc" and d: "codecs W enc = Some dec"
    and h: "html = strip (dec buf)" "html \<noteq> []"
    by (auto simp: read_and_decode_def bytes_decode_def Let_def split: sum.splits option.splits if_splits)
  from read_chunks_bound [OF b] assms(1) have "int (length buf) \<le> MAX_HTML_BYTES W"
    by auto
  with r b e d h show ?thesis by blast
qed

lemma bytes_decode_known: "reg enc = Some dec \<Longrightarrow> bytes_decode reg b enc = Inr (dec b)"
  by (simp add: bytes_decode_def)


text \<open>
  Claim C5, where the code departs from it. The response declares the charset
  \<open>x-unknown\<close>, which names no codec; the body is the three bytes \<open><p>\<close>, well within the
  limit. Decoding raises \<open>LookupError\<close>, which \<open>_fetch_html\<close> does not catch.
\<close>

theorem fetch_html_unknown_charset_raises:
  "fetch_html
      (example_world None (Response (example_response (Some (ascii ''x-unknown'')) [[0x3C, 0x70, 0x3E]])))
      (ascii ''http://example.com/'') 15
   = Inl (PyException (''LookupError'', ascii ''unknown encoding: x-unknown''))"
  by (simp add: fetch_simps)


section \<open>Properties of stripping\<close>

lemma lstrip_hd: "lstrip s \<noteq> [] \<Longrightarrow> \<not> isspace (hd (lstrip s))"
  unfolding lstrip_def by (rule hd_dropWhile)

lemma rstrip_decomp: "\<exists>ws. s = rstrip s @ ws \<and> list_all isspace ws"
proof -
  have "rev s = takeWhile isspace (rev s) @ dropWhile isspace (rev s)" by simp
  then have "s = rev (dropWhile isspace (rev s)) @ rev (takeWhile isspace (rev s))"
    by (metis rev_append rev_rev_ident)
  moreover have "list_all isspace (rev (takeWhile isspace (rev s)))"
    by (simp add: list_all_iff) (meson set_takeWhileD)
  ultimately show ?thesis unfolding rstrip_def by blast
qed

lemma rstrip_last: "rstrip s \<noteq> [] \<Longrightarrow> \<not> isspace (last (rstrip s))"
  unfolding rstrip_def by (simp add: last_rev hd_dropWhile)

lemma rstrip_prefix: "prefix (rstrip s) s"
  using rstrip_decomp [of s] by (metis prefixI)

lemma rstrip_hd: "rstrip s \<noteq> [] \<Longrightarrow> hd (rstrip s) = hd s"
  using rstrip_decomp [of s] by (metis hd_append2)

lemma length_rstrip: "length (rstrip s) \<le> length s"
  using rstrip_prefix by (rule prefix_length_le)

lemma rstrip_id: "s = [] \<or> \<not> isspace (last s) \<Longrightarrow> rstrip s = s"
  unfolding rstrip_def by (cases s rule: rev_cases) auto

lemma rstrip_append_id: "ys \<noteq> [] \<Longrightarrow> \<not> isspace (last ys) \<Longrightarrow> rstrip (xs @ ys) = xs @ ys"
  by (rule rstrip_id) simp

lemma rstrip_append_spaces: "list_all isspace ws \<Longrightarrow> rstrip (xs @ ws) = rstrip xs"
  unfolding rstrip_def by (induction ws rule: rev_induct) auto

lemma rstrip_rstrip: "rstrip (rstrip s) = rstrip s"
  by (rule rstrip_id) (use rstrip_last in blast)

lemma lstrip_id: "s = [] \<or> \<not> isspace (hd s) \<Longrightarrow> lstrip s = s"
  unfolding lstrip_def by (cases s) auto

lemma stripped_strip: "stripped (strip s)"
  unfolding stripped_def strip_def
  using rstrip_last [of "lstrip s"] rstrip_hd [of "lstrip s"] lstrip_hd [of s]
  by (metis rstrip_def rev.simps(1) dropWhile.simps(1))

lemma strip_stripped: "stripped s \<Longrightarrow> strip s = s"
  unfolding stripped_def strip_def by (metis lstrip_id rstrip_id)

lemma strip_strip: "strip (strip s) = strip s"
  by (simp add: strip_stripped stripped_strip)


section \<open>Properties of the length cap\<close>

lemma length_truncation_suffix: "length truncation_suffix = 11"
  by (simp add: truncation_suffix_def truncation_marker_def)

lemma marker_not_space: "c \<in> set truncation_marker \<Longrightarrow> \<not> isspace c"
  by (auto simp: truncation_marker_def isspace_def)

lemma suffix_last: "last truncation_suffix = 65289" "truncation_suffix \<noteq> []"
  by (simp_all add: truncation_suffix_def truncation_marker_def)

lemma take_suffix_small: "j \<le> 2 \<Longrightarrow> list_all isspace (take j truncation_suffix)"
proof -
  assume "j \<le> 2"
  then have "j = 0 \<or> j = 1 \<or> j = 2" by arith
  then show ?thesis
    by (auto simp: truncation_suffix_def isspace_def)
qed

lemma take_suffix_large:
  assumes "3 \<le> j"
  shows "take j truncation_suffix \<noteq> [] \<and> \<not> isspace (last (take j truncation_suffix))"
proof -
  have eq: "take j truncation_suffix = [10, 10] @ take (j - 2) truncation_marker"
    using assms by (simp add: truncation_suffix_def take_Cons' numeral_2_eq_2)
  have ne: "take (j - 2) truncation_marker \<noteq> []"
    using assms by (simp add: truncation_marker_def)
  then have "last (take (j - 2) truncation_marker) \<in> set truncation_marker"
    by (meson in_set_takeD last_in_set)
  then show ?thesis using eq ne marker_not_space by simp
qed

text \<open>The truncated prefix of a stripped text longer than the cap.\<close>

lemma prefix_props:
  assumes "stripped s" and "12000 < length s"
  shows "rstrip (take 12000 s) \<noteq> []" and "\<not> isspace (hd (rstrip (take 12000 s)))"
    and "\<not> isspace (last (rstrip (take 12000 s)))" and "length (rstrip (take 12000 s)) \<le> 12000"
proof -
  from assms have ne: "s \<noteq> []" and h: "\<not> isspace (hd s)" by (auto simp: stripped_def)
  then obtain c cs where s: "s = c # cs" by (cases s) auto
  have t: "take 12000 s = c # take 11999 cs" by (simp add: s take_Cons')
  have "rstrip (take 12000 s) \<noteq> []"
    using h s unfolding t rstrip_def by (auto simp: dropWhile_append)
  then show 1: "rstrip (take 12000 s) \<noteq> []" .
  from rstrip_hd [OF 1] h t s show "\<not> isspace (hd (rstrip (take 12000 s)))" by simp
  from rstrip_last [OF 1] show "\<not> isspace (last (rstrip (take 12000 s)))" .
  from length_rstrip [of "take 12000 s"] show "length (rstrip (take 12000 s)) \<le> 12000" by simp
qed

lemma apply_limits_short: "length (strip t) \<le> 12000 \<Longrightarrow> apply_limits t = strip t"
  by (simp add: apply_limits_def)

lemma apply_limits_long:
  "12000 < length (strip t) \<Longrightarrow> apply_limits t = rstrip (take 12000 (strip t)) @ truncation_suffix"
  by (simp add: apply_limits_def)

lemma stripped_apply_limits: "stripped (apply_limits t)"
proof (cases "12000 < length (strip t)")
  case True
  note p = prefix_props [OF stripped_strip True]
  show ?thesis
    unfolding apply_limits_long [OF True] stripped_def
    using p(1,2) suffix_last by (simp add: isspace_def)
next
  case False
  then show ?thesis by (simp add: apply_limits_def stripped_strip)
qed

lemma length_apply_limits: "length (apply_limits t) \<le> 12000 + length truncation_suffix"
proof (cases "12000 < length (strip t)")
  case True
  from prefix_props(4) [OF stripped_strip True] show ?thesis
    by (simp add: apply_limits_long [OF True])
next
  case False
  then show ?thesis by (simp add: apply_limits_def)
qed

lemma rstrip_eq_iff: "rstrip s = s \<longleftrightarrow> s = [] \<or> \<not> isspace (last s)"
  using rstrip_id [of s] rstrip_last [of s] by auto

lemma strip_long_a: "strip long_a = long_a"
  by (rule strip_stripped) (simp add: stripped_def long_a_def isspace_def)

lemma strip_space_at_cap: "strip space_at_cap = space_at_cap"
  by (rule strip_stripped) (simp add: stripped_def space_at_cap_def isspace_def hd_append)

lemma strip_spaces_before_cap: "strip spaces_before_cap = spaces_before_cap"
  by (rule strip_stripped) (simp add: stripped_def spaces_before_cap_def isspace_def hd_append)

lemma rstrip_replicate_a: "rstrip (replicate n 97) = replicate n 97"
  by (cases "n = 0") (simp_all add: rstrip_id isspace_def)

lemma apply_limits_long_a: "apply_limits long_a = replicate 12000 97 @ truncation_suffix"
  by (simp add: apply_limits_def strip_long_a) (simp add: long_a_def rstrip_replicate_a)

lemma apply_limits_space_at_cap: "apply_limits space_at_cap = replicate 11999 97 @ truncation_suffix"
proof -
  have "take 12000 space_at_cap = replicate 11999 97 @ [32]"
    by (simp add: space_at_cap_def)
  moreover have "rstrip (replicate 11999 97 @ [32]) = replicate 11999 97"
    by (simp add: rstrip_append_spaces rstrip_replicate_a isspace_def)
  moreover have "12000 < length space_at_cap" by (simp add: space_at_cap_def)
  ultimately show ?thesis
    by (simp add: apply_limits_def strip_space_at_cap)
qed

lemma apply_limits_spaces_before_cap:
  "apply_limits spaces_before_cap = replicate 11995 97 @ truncation_suffix"
proof -
  have "take 12000 spaces_before_cap = replicate 11995 97 @ replicate 5 32"
    by (simp add: spaces_before_cap_def)
  moreover have "rstrip (replicate 11995 97 @ replicate 5 32) = replicate 11995 97"
    by (simp add: rstrip_append_spaces rstrip_replicate_a isspace_def list_all_iff)
  moreover have "12000 < length spaces_before_cap" by (simp add: spaces_before_cap_def)
  ultimately show ?thesis
    by (simp add: apply_limits_def strip_spaces_before_cap)
qed

text \<open>
  Applying the cap to a capped text that is still longer than 12000 characters cuts into
  the suffix appended before. The result is the same text only when the cut falls within
  the two newlines, that is, when the text has at least 12009 characters.
\<close>

lemma apply_limits_twice:
  assumes "12000 < length (apply_limits t)"
  shows "apply_limits (apply_limits t) = apply_limits t \<longleftrightarrow> 12009 \<le> length (apply_limits t)"
proof -
  have long: "12000 < length (strip t)"
    using assms by (auto simp: apply_limits_def Let_def split: if_splits)
  define p where "p = rstrip (take 12000 (strip t))"
  have y: "apply_limits t = p @ truncation_suffix"
    by (simp add: apply_limits_long [OF long] p_def)
  note pp = prefix_props [OF stripped_strip long, folded p_def]
  define j where "j = 12000 - length p"
  have len: "length (apply_limits t) = length p + 11"
    by (simp add: y length_truncation_suffix)
  have sy: "strip (apply_limits t) = apply_limits t"
    by (rule strip_stripped) (rule stripped_apply_limits)
  have tk: "take 12000 (p @ truncation_suffix) = p @ take j truncation_suffix"
    using pp(4) by (simp add: j_def)
  have "12000 < length (strip (apply_limits t))"
    using assms by (simp only: sy)
  from apply_limits_long [OF this]
  have "apply_limits (apply_limits t) = rstrip (take 12000 (apply_limits t)) @ truncation_suffix"
    by (simp only: sy)
  then have "apply_limits (apply_limits t) = rstrip (p @ take j truncation_suffix) @ truncation_suffix"
    by (simp only: y tk)
  then have eq: "apply_limits (apply_limits t) = apply_limits t \<longleftrightarrow>
      rstrip (p @ take j truncation_suffix) = p"
    by (simp add: y)
  have pid: "rstrip p = p"
    using pp(3) by (simp add: rstrip_id)
  show ?thesis
  proof (cases "j \<le> 2")
    case True
    then have "rstrip (p @ take j truncation_suffix) = p"
      by (simp add: rstrip_append_spaces take_suffix_small pid)
    moreover from True have "12009 \<le> length (apply_limits t)"
      using pp(4) by (simp add: len j_def)
    ultimately show ?thesis using eq by simp
  next
    case False
    then have j3: "3 \<le> j" by simp
    from take_suffix_large [OF j3]
    have "rstrip (p @ take j truncation_suffix) = p @ take j truncation_suffix"
      by (simp add: rstrip_append_id)
    moreover have "p @ take j truncation_suffix \<noteq> p"
      using take_suffix_large [OF j3] by simp
    moreover from False have "\<not> 12009 \<le> length (apply_limits t)"
      by (simp add: len j_def)
    ultimately show ?thesis using eq by simp
  qed
qed

text \<open>
  Claim C7, as the code has it. Applying the cap to its own output gives that output
  exactly when the output has at most 12000 characters or at least 12009. The output never
  has more than 12000 characters plus the appended suffix, which is two newlines and the
  marker of nine characters.
\<close>

theorem apply_limits_idempotent_iff:
  "(apply_limits (apply_limits t) = apply_limits t \<longleftrightarrow>
      length (apply_limits t) \<le> 12000 \<or> 12009 \<le> length (apply_limits t))
   \<and> length (apply_limits t) \<le> 12000 + length truncation_suffix
   \<and> length truncation_suffix = 2 + length truncation_marker"
proof (cases "12000 < length (apply_limits t)")
  case True
  then show ?thesis
    using apply_limits_twice [OF True] length_apply_limits [of t]
    by (simp add: truncation_suffix_def)
next
  case False
  then have "length (strip (apply_limits t)) \<le> 12000"
    by (simp add: strip_stripped [OF stripped_apply_limits])
  from apply_limits_short [OF this]
  have "apply_limits (apply_limits t) = apply_limits t"
    by (simp add: strip_stripped [OF stripped_apply_limits])
  with False show ?thesis
    using length_apply_limits [of t] by (simp add: truncation_suffix_def)
qed


text \<open>The text of 12001 letters: its capped form has 12011 characters and is capped to itself.\<close>

theorem apply_limits_idempotent_iff_witness:
  "apply_limits (apply_limits long_a) = apply_limits long_a
   \<and> length (apply_limits long_a) = 12011"
  using apply_limits_idempotent_iff [of long_a]
  by (simp add: apply_limits_long_a length_truncation_suffix)

text \<open>
  Claim C7 as stated fails for a text whose first 12000 characters end in five spaces: the
  capped text has 12006 characters, and capping it again cuts the first marker after three
  characters and appends a second one.
\<close>

theorem apply_limits_not_idempotent:
  "apply_limits (apply_limits spaces_before_cap) \<noteq> apply_limits spaces_before_cap"
proof -
  have len: "length (apply_limits spaces_before_cap) = 12006"
    by (simp add: apply_limits_spaces_before_cap length_truncation_suffix)
  then have "12000 < length (apply_limits spaces_before_cap)" by simp
  from apply_limits_twice [OF this] len show ?thesis by simp
qed


text \<open>The bound is reached, and it exceeds the cap plus the nine characters of the marker.\<close>

lemma apply_limits_exceeds_cap_plus_marker:
  "length (apply_limits long_a) = 12000 + length truncation_marker + 2"
  by (simp add: apply_limits_long_a truncation_suffix_def)


text \<open>
  Claim C8, as the code has it. For a text whose stripped form has more than 12000
  characters, the capped text is the first 12000 characters of the stripped text with
  trailing whitespace removed, then two newlines, then the marker. The part before the
  marker is the first 12000 characters, and has 12000 characters, exactly when the 12000th
  character is not whitespace.
\<close>

theorem apply_limits_truncates:
  assumes "12000 < length (strip text)"
  shows "apply_limits text = rstrip (take 12000 (strip text)) @ [10, 10] @ truncation_marker
         \<and> (apply_limits text = take 12000 (strip text) @ [10, 10] @ truncation_marker
              \<longleftrightarrow> \<not> isspace (strip text ! 11999))
         \<and> (length (rstrip (take 12000 (strip text))) = 12000
              \<longleftrightarrow> \<not> isspace (strip text ! 11999))"
proof -
  define u where "u = take 12000 (strip text)"
  have lu: "length u = 12000" using assms by (simp add: u_def)
  then have ne: "u \<noteq> []" by auto
  have "last u = u ! 11999" using lu ne by (simp add: last_conv_nth)
  then have last: "last u = strip text ! 11999" by (simp add: u_def)
  have a: "apply_limits text = rstrip u @ [10, 10] @ truncation_marker"
    using assms by (simp add: apply_limits_def u_def truncation_suffix_def)
  have b: "rstrip u = u \<longleftrightarrow> \<not> isspace (strip text ! 11999)"
    using ne last by (simp add: rstrip_eq_iff)
  obtain ws where ws: "u = rstrip u @ ws"
    using rstrip_decomp [of u] by blast
  have "length u = length (rstrip u) + length ws"
    by (subst ws) simp
  then have "length (rstrip u) = 12000 \<longleftrightarrow> ws = []"
    using lu by auto
  then have c: "length (rstrip u) = 12000 \<longleftrightarrow> rstrip u = u"
    using ws by (metis append_Nil2 self_append_conv)
  show ?thesis
    using a b c by (simp add: u_def)
qed

text \<open>The text of 12001 letters keeps its first 12000.\<close>

theorem apply_limits_truncates_witness:
  "12000 < length (strip long_a) \<and>
   apply_limits long_a = replicate 12000 97 @ [10, 10] @ truncation_marker"
  using apply_limits_truncates [of long_a]
  by (simp add: strip_long_a) (simp add: long_a_def rstrip_replicate_a)

text \<open>
  Claim C8 as stated fails for a text of 12001 characters whose 12000th character is a
  space: 11999 characters stand before the marker.
\<close>

theorem apply_limits_trims_before_marker:
  "12000 < length space_at_cap
   \<and> apply_limits space_at_cap = replicate 11999 97 @ [10, 10] @ truncation_marker
   \<and> apply_limits space_at_cap \<noteq> take 12000 space_at_cap @ [10, 10] @ truncation_marker"
proof -
  have "take 12000 space_at_cap = replicate 11999 97 @ [32]"
    by (simp add: space_at_cap_def)
  then show ?thesis
    by (simp add: apply_limits_space_at_cap truncation_suffix_def) (simp add: space_at_cap_def)
qed


section \<open>Properties of the block deduplication\<close>

text \<open>
  Splitting on two newlines: the pieces contain no two newlines in a row, and joining
  blocks that are kept with two newlines and splitting again gives the blocks back.
\<close>

lemma py_split_nonempty: "py_split sep s \<noteq> []"
  by (cases s) (auto split: list.splits)

lemma py_split_hd_prefix: "prefix (hd (py_split sep s)) s"
proof (induction sep s rule: py_split.induct)
  case (1 sep)
  then show ?case by simp
next
  case (2 sep c cs)
  then show ?case
    by (cases "py_split sep cs") (auto simp: py_split_nonempty)
qed

lemma prefix_nn_Cons: "prefix [10, 10] (c # cs) \<longleftrightarrow> c = (10::nat) \<and> cs \<noteq> [] \<and> hd cs = 10"
  by (cases cs) auto

lemma py_split_pieces_free_aux:
  "sep = [10, 10] \<Longrightarrow> p \<in> set (py_split sep s) \<Longrightarrow> \<not> sublist sep p"
proof (induction sep s arbitrary: p rule: py_split.induct)
  case (1 sep)
  then show ?case by simp
next
  case (2 sep c cs)
  show ?case
  proof (cases "prefix sep (c # cs)")
    case True
    with "2.prems" have "p = [] \<or> p \<in> set (py_split sep (drop (length sep - 1) cs))"
      by auto
    then show ?thesis
    proof
      assume "p = []" with "2.prems"(1) show ?thesis by simp
    next
      assume "p \<in> set (py_split sep (drop (length sep - 1) cs))"
      with "2.IH"(1) [of p] True "2.prems"(1) show ?thesis by simp
    qed
  next
    case False
    obtain q qs where q: "py_split sep cs = q # qs"
      using py_split_nonempty by (cases "py_split sep cs") auto
    from False q have "py_split sep (c # cs) = (c # q) # qs" by simp
    with "2.prems"(2) have "p = c # q \<or> p \<in> set qs" by simp
    then show ?thesis
    proof
      assume pq: "p = c # q"
      have qfree: "\<not> sublist sep q" using "2.IH"(2) [of q] q False "2.prems"(1) by simp
      have "prefix q cs" using py_split_hd_prefix [of sep cs] q by simp
      then have "\<not> prefix sep (c # q)"
        using False "2.prems"(1) by (auto simp: prefix_nn_Cons prefix_def)
      with qfree pq show ?thesis by (simp add: sublist_Cons_right)
    next
      assume "p \<in> set qs"
      with "2.IH"(2) [of p] q False "2.prems"(1) show ?thesis by simp
    qed
  qed
qed

lemma py_split_pieces_free: "p \<in> set (py_split [10, 10] s) \<Longrightarrow> \<not> sublist [10, 10] p"
  using py_split_pieces_free_aux [of "[10, 10]" p s] by simp

lemma prefix_nn_append: "cs \<noteq> [] \<Longrightarrow> prefix [10, 10] (c # cs @ ys) = prefix [10::nat, 10] (c # cs)"
  by (cases cs) auto

lemma py_split_single: "\<not> sublist [10, 10] b \<Longrightarrow> py_split [10, 10] b = [b]"
proof (induction b)
  case Nil
  then show ?case by simp
next
  case (Cons c cs)
  then have "\<not> prefix [10, 10] (c # cs)" and "\<not> sublist [10, 10] cs"
    by (auto simp: sublist_Cons_right)
  with Cons.IH show ?case by simp
qed

lemma py_split_append_sep:
  "b \<noteq> [] \<Longrightarrow> \<not> sublist [10, 10] b \<Longrightarrow> last b \<noteq> 10
   \<Longrightarrow> py_split [10, 10] (b @ [10, 10] @ rest) = b # py_split [10, 10] rest"
proof (induction b)
  case Nil
  then show ?case by simp
next
  case (Cons c cs)
  show ?case
  proof (cases "cs = []")
    case True
    with Cons.prems have "c \<noteq> 10" by simp
    with True show ?thesis by simp
  next
    case False
    from Cons.prems have np: "\<not> prefix [10, 10] (c # cs)" and free: "\<not> sublist [10, 10] cs"
      by (auto simp: sublist_Cons_right)
    from np have "\<not> prefix [10, 10] (c # cs @ [10, 10] @ rest)"
      unfolding prefix_nn_append [OF False] .
    moreover from Cons.IH [OF False free] Cons.prems(3) False
    have "py_split [10, 10] (cs @ [10, 10] @ rest) = cs # py_split [10, 10] rest" by simp
    ultimately show ?thesis by simp
  qed
qed


lemma isspace_newline: "isspace 10"
  by (simp add: isspace_def)

lemma block_ok_last: "block_ok b \<Longrightarrow> last b \<noteq> 10"
  unfolding block_ok_def stripped_def using isspace_newline by metis

lemma py_split_join:
  "bs \<noteq> [] \<Longrightarrow> list_all block_ok bs \<Longrightarrow> py_split [10, 10] (py_join [10, 10] bs) = bs"
proof (induction "[10::nat, 10]" bs rule: py_join.induct)
  case 1
  then show ?case by simp
next
  case (2 x)
  then show ?case by (simp add: py_split_single block_ok_def)
next
  case (3 x y ys)
  then have "py_split [10, 10] (py_join [10, 10] (y # ys)) = y # ys" by simp
  moreover from "3.prems" have x: "block_ok x" by simp
  then have "x \<noteq> []" "\<not> sublist [10, 10] x" "last x \<noteq> 10"
    using block_ok_last [OF x] by (simp_all add: block_ok_def)
  ultimately show ?case
    using py_split_append_sep [of x "py_join [10, 10] (y # ys)"] by simp
qed

lemma py_join_ends:
  "bs \<noteq> [] \<Longrightarrow> list_all (\<lambda>b. b \<noteq> []) bs
   \<Longrightarrow> py_join sep bs \<noteq> [] \<and> hd (py_join sep bs) = hd (hd bs)
       \<and> last (py_join sep bs) = last (last bs)"
proof (induction sep bs rule: py_join.induct)
  case (1 sep)
  then show ?case by simp
next
  case (2 sep x)
  then show ?case by simp
next
  case (3 sep x y ys)
  then have ih: "py_join sep (y # ys) \<noteq> []"
    "last (py_join sep (y # ys)) = last (last (y # ys))" by simp_all
  from "3.prems" have "x \<noteq> []" by simp
  with ih show ?case by simp
qed

lemma stripped_py_join:
  assumes "list_all block_ok bs"
  shows "stripped (py_join sep bs)"
proof (cases "bs = []")
  case True
  then show ?thesis by (simp add: stripped_def)
next
  case False
  from assms have ne: "list_all (\<lambda>b. b \<noteq> []) bs"
    by (simp add: list_all_iff block_ok_def)
  from False assms have "block_ok (hd bs)" "block_ok (last bs)"
    by (simp_all add: list_all_iff)
  then have "\<not> isspace (hd (hd bs))" "\<not> isspace (last (last bs))"
    unfolding block_ok_def stripped_def by blast+
  with py_join_ends [OF False ne, of sep] show ?thesis
    by (simp add: stripped_def)
qed


text \<open>
  The loop: what it appends to \<open>out\<close> does not depend on \<open>out\<close>; the blocks it keeps are
  non-empty blocks of its input with non-empty keys that are new and pairwise different;
  and it keeps every block of a list of such blocks.
\<close>

lemma strip_sublist: "sublist (strip s) s"
proof -
  have "prefix (strip s) (lstrip s)"
    unfolding strip_def by (rule rstrip_prefix)
  moreover have "suffix (lstrip s) s"
    unfolding lstrip_def by (rule suffix_dropWhile)
  ultimately show ?thesis
    by (meson prefix_imp_sublist suffix_imp_sublist sublist_order.order_trans)
qed

lemma dedupe_loop_skip:
  "b = [] \<or> block_key lower b = [] \<or> block_key lower b \<in> seen
   \<Longrightarrow> dedupe_loop lower (b # blocks) seen out = dedupe_loop lower blocks seen out"
  by (auto simp: Let_def)

lemma dedupe_loop_keep:
  "b \<noteq> [] \<Longrightarrow> block_key lower b \<noteq> [] \<Longrightarrow> block_key lower b \<notin> seen
   \<Longrightarrow> dedupe_loop lower (b # blocks) seen out =
       dedupe_loop lower blocks (insert (block_key lower b) seen) (out @ [b])"
  by (simp add: Let_def)

lemma dedupe_loop_out:
  "dedupe_loop lower blocks seen out = out @ dedupe_loop lower blocks seen []"
proof (induction blocks arbitrary: seen out)
  case Nil
  then show ?case by simp
next
  case (Cons b blocks)
  show ?case
  proof (cases "b = [] \<or> block_key lower b = [] \<or> block_key lower b \<in> seen")
    case True
    then show ?thesis
      using Cons.IH [of seen out] by (simp only: dedupe_loop_skip)
  next
    case False
    then have k: "b \<noteq> []" "block_key lower b \<noteq> []" "block_key lower b \<notin> seen" by simp_all
    show ?thesis
      using Cons.IH [of "insert (block_key lower b) seen" "out @ [b]"]
        Cons.IH [of "insert (block_key lower b) seen" "[] @ [b]"]
      by (simp only: dedupe_loop_keep [OF k]) simp
  qed
qed

lemma dedupe_loop_keep':
  "b \<noteq> [] \<Longrightarrow> block_key lower b \<noteq> [] \<Longrightarrow> block_key lower b \<notin> seen
   \<Longrightarrow> dedupe_loop lower (b # blocks) seen [] =
       b # dedupe_loop lower blocks (insert (block_key lower b) seen) []"
  using dedupe_loop_out [of lower blocks "insert (block_key lower b) seen" "[b]"]
  by (simp add: dedupe_loop_keep)

lemma dedupe_loop_kept:
  "b \<in> set (dedupe_loop lower blocks seen []) \<Longrightarrow>
     b \<in> set blocks \<and> b \<noteq> [] \<and> block_key lower b \<noteq> [] \<and> block_key lower b \<notin> seen"
proof (induction blocks arbitrary: seen)
  case Nil
  then show ?case by simp
next
  case (Cons a blocks)
  show ?case
  proof (cases "a = [] \<or> block_key lower a = [] \<or> block_key lower a \<in> seen")
    case True
    from Cons.prems have "b \<in> set (dedupe_loop lower blocks seen [])"
      by (simp only: dedupe_loop_skip [OF True])
    with Cons.IH [of seen] show ?thesis by simp
  next
    case False
    then have k: "a \<noteq> []" "block_key lower a \<noteq> []" "block_key lower a \<notin> seen" by simp_all
    from Cons.prems
    have "b = a \<or> b \<in> set (dedupe_loop lower blocks (insert (block_key lower a) seen) [])"
      unfolding dedupe_loop_keep' [OF k] by simp
    then show ?thesis
    proof
      assume "b = a" with k show ?thesis by simp
    next
      assume "b \<in> set (dedupe_loop lower blocks (insert (block_key lower a) seen) [])"
      with Cons.IH [of "insert (block_key lower a) seen"] show ?thesis by simp
    qed
  qed
qed

lemma dedupe_loop_distinct:
  "distinct (map (block_key lower) (dedupe_loop lower blocks seen []))"
proof (induction blocks arbitrary: seen)
  case Nil
  then show ?case by simp
next
  case (Cons a blocks)
  show ?case
  proof (cases "a = [] \<or> block_key lower a = [] \<or> block_key lower a \<in> seen")
    case True
    with Cons.IH [of seen] show ?thesis by (simp only: dedupe_loop_skip)
  next
    case False
    then have k: "a \<noteq> []" "block_key lower a \<noteq> []" "block_key lower a \<notin> seen" by simp_all
    have "block_key lower b \<noteq> block_key lower a"
      if "b \<in> set (dedupe_loop lower blocks (insert (block_key lower a) seen) [])" for b
      using dedupe_loop_kept [OF that] by simp
    then have "block_key lower a \<notin>
        block_key lower ` set (dedupe_loop lower blocks (insert (block_key lower a) seen) [])"
      by force
    with Cons.IH [of "insert (block_key lower a) seen"] show ?thesis
      unfolding dedupe_loop_keep' [OF k] by simp
  qed
qed

lemma dedupe_loop_fixed:
  "list_all (\<lambda>b. b \<noteq> [] \<and> block_key lower b \<noteq> [] \<and> block_key lower b \<notin> seen) bs
   \<Longrightarrow> distinct (map (block_key lower) bs)
   \<Longrightarrow> dedupe_loop lower bs seen [] = bs"
proof (induction bs arbitrary: seen)
  case Nil
  then show ?case by simp
next
  case (Cons a bs)
  from Cons.prems have k: "a \<noteq> []" "block_key lower a \<noteq> []" "block_key lower a \<notin> seen"
    by simp_all
  from Cons.prems(2) have "block_key lower a \<notin> block_key lower ` set bs" by simp
  then have "block_key lower b \<noteq> block_key lower a" if "b \<in> set bs" for b
    using that by (metis imageI)
  with Cons.prems(1)
  have "list_all (\<lambda>b. b \<noteq> [] \<and> block_key lower b \<noteq> [] \<and>
          block_key lower b \<notin> insert (block_key lower a) seen) bs"
    by (simp add: list_all_iff)
  moreover have "distinct (map (block_key lower) bs)" using Cons.prems by simp
  ultimately have "dedupe_loop lower bs (insert (block_key lower a) seen) [] = bs"
    by (rule Cons.IH)
  then show ?case
    unfolding dedupe_loop_keep' [OF k] by simp
qed

text \<open>
  Claim C9. Block deduplication is idempotent: for every text, and for every lower-casing
  function, deduplicating the deduplicated text gives the deduplicated text.
\<close>

theorem dedupe_blocks_idempotent:
  "dedupe_blocks lower (dedupe_blocks lower text) = dedupe_blocks lower text"
proof -
  define out where "out = dedupe_loop lower (map strip (py_split [10, 10] text)) {} []"
  have kept: "b \<noteq> [] \<and> block_key lower b \<noteq> [] \<and> block_ok b" if "b \<in> set out" for b
  proof -
    from that dedupe_loop_kept [of b lower "map strip (py_split [10, 10] text)" "{}"]
    have b: "b \<in> set (map strip (py_split [10, 10] text))" "b \<noteq> []" "block_key lower b \<noteq> []"
      by (simp_all add: out_def)
    then obtain p where p: "p \<in> set (py_split [10, 10] text)" "b = strip p" by auto
    have "\<not> sublist [10, 10] b"
      using py_split_pieces_free [OF p(1)] strip_sublist [of p] p(2)
      by (meson sublist_order.order_trans)
    with b p(2) show ?thesis by (simp add: block_ok_def stripped_strip)
  qed
  then have ok: "list_all block_ok out" by (simp add: list_all_iff)
  have d: "dedupe_blocks lower text = py_join [10, 10] out"
    by (simp add: dedupe_blocks_def out_def [symmetric] strip_stripped stripped_py_join [OF ok])
  show ?thesis
  proof (cases "out = []")
    case True
    then show ?thesis
      by (simp add: d) (simp add: dedupe_blocks_def strip_Nil)
  next
    case False
    have s: "py_split [10, 10] (py_join [10, 10] out) = out"
      by (rule py_split_join [OF False ok])
    have m: "map strip out = out"
      using ok by (simp add: map_idI list_all_iff block_ok_def strip_stripped)
    have l: "dedupe_loop lower out {} [] = out"
    proof (rule dedupe_loop_fixed)
      show "list_all (\<lambda>b. b \<noteq> [] \<and> block_key lower b \<noteq> [] \<and> block_key lower b \<notin> {}) out"
        using kept by (simp add: list_all_iff)
      show "distinct (map (block_key lower) out)"
        unfolding out_def by (rule dedupe_loop_distinct)
    qed
    have "dedupe_blocks lower (py_join [10, 10] out) = strip (py_join [10, 10] out)"
      by (simp add: dedupe_blocks_def s m l)
    then show ?thesis
      by (simp add: d strip_stripped stripped_py_join [OF ok])
  qed
qed


text \<open>
  Three blocks, the second equal to the first up to case and whitespace: the first and the
  third are kept as they were written.
\<close>

lemma dedupe_blocks_example:
  "dedupe_blocks ascii_lower (ascii ''Hello  you'' @ [10, 10] @ ascii ''hello you '' @ [10, 10, 10] @ ascii ''Bye'')
     = ascii ''Hello  you'' @ [10, 10] @ ascii ''Bye''"
  by (simp add: dedupe_blocks_def block_key_def ascii_lower_def ascii_def strip_def lstrip_def
        rstrip_def isspace_def Let_def)


end
